theory Spec2Isabelle
  imports Complex_Main "HOL-Library.Word"
begin

unbundle bit_operations_syntax

section \<open>The bspline test harness (Tests/C++/bspline.cpp) and BSplineVersion.h\<close>

text \<open>
  The repository's fitting core (\<^verbatim>\<open>BSpline/BSpline.h\<close>, declaring \<^verbatim>\<open>BSplineBase\<close>
  and \<^verbatim>\<open>BSpline\<close>) and the option parser (\<^verbatim>\<open>options.h\<close>) are not among the
  sources; the harness \<^verbatim>\<open>bspline.cpp\<close> and the header \<^verbatim>\<open>BSplineVersion.h\<close> are.
  The harness is embedded function by function. What it takes from the absent headers
  enters the model as a parameter (the record \<open>env\<close> below) or, where a statement is
  about the core itself, as a definition modelled from the specification and marked so.

  \<^verbatim>\<open>typedef double datum\<close>: a datum is modelled as a real number. Not-a-number and the
  infinities of IEEE arithmetic, and rounding, are outside the model.
\<close>

type_synonym datum = real

subsection \<open>BSplineVersion.h\<close>

text \<open>
  \<^verbatim>\<open>#define BSPLINE_VERSION "v1.6-x"\<close> and \<^verbatim>\<open>#define BSPLINE_URL ...\<close>, for a build
  that does not define \<^verbatim>\<open>BSPLINE_AUTO_REVISION\<close> (the header included in that case is
  not among the sources).
\<close>

definition BSPLINE_VERSION :: string where
  "BSPLINE_VERSION = ''v1.6-x''"

definition BSPLINE_URL :: string where
  "BSPLINE_URL = ''https://github.com/NCAR/bspline''"

subsection \<open>Boundary conditions\<close>

text \<open>
  The enumerators \<^verbatim>\<open>SplineBase::BC_ZERO_ENDPOINTS\<close>, \<^verbatim>\<open>BC_ZERO_FIRST\<close> and
  \<^verbatim>\<open>BC_ZERO_SECOND\<close> that the harness assigns to \<^verbatim>\<open>bc\<close>. Their integer values are
  declared in the absent header, so \<^verbatim>\<open>bc\<close> is kept as the enumerator.
\<close>

datatype BoundaryConditionTypes = BC_ZERO_ENDPOINTS | BC_ZERO_FIRST | BC_ZERO_SECOND

subsection \<open>The fitting core, as far as the specification fixes it\<close>

text \<open>
  Modelled from the spec: the knot-spacing selection of the Basis Engine (BSplineBase,
  declared in the absent BSpline/BSpline.h). Spec 4.1: "a smoothing wavelength (real,
  must be positive) OR an explicit node count (positive integer) -- exactly one
  determines knot spacing"; spec 6: "a positive smoothing wavelength or a positive node
  count (mutually exclusive selection)".
\<close>

datatype knot_selection = Wavelength real | NodeCount int


text \<open>
  Modelled from the spec: the Basis Engine's status (BSplineBase is absent). Spec 4.1:
  "wavelength <= 0 is a configuration error (Fit Status = failure, isValid() == false);
  node count below the minimum required for a cubic basis is likewise rejected", and
  "isValid() -> bool: true iff setup succeeded and the factorization is usable". The
  minimum node count is not given by the spec and is the parameter \<open>min_nodes\<close>; the
  outcome of the numerical factorisation, which is not modelled, is the parameter
  \<open>factorized\<close>.
\<close>

record BasisEngine =
  selection :: knot_selection
  setup_succeeded :: bool
  factorization_usable :: bool

definition BSplineBase :: "int \<Rightarrow> knot_selection \<Rightarrow> bool \<Rightarrow> BasisEngine" where
  "BSplineBase min_nodes sel factorized =
     \<lparr> selection = sel,
       setup_succeeded = (case sel of Wavelength w \<Rightarrow> 0 < w | NodeCount n \<Rightarrow> min_nodes \<le> n),
       factorization_usable = factorized \<rparr>"

definition isValid :: "BasisEngine \<Rightarrow> bool" where
  "isValid e = (setup_succeeded e \<and> factorization_usable e)"

text \<open>
  Modelled from the spec: the Curve Fit (BSpline, declared in the absent
  BSpline/BSpline.h). Spec 4.2: "ok() -> bool: true iff both the underlying Basis Engine
  and this fit's solve succeeded". The fitted curve and its derivative, which the spec
  does not determine, are the fields \<open>evaluate\<close> and \<open>slope\<close>.
\<close>

record CurveFit =
  engine :: BasisEngine
  solve_succeeded :: bool
  evaluate :: "datum \<Rightarrow> datum"
  slope :: "datum \<Rightarrow> datum"

definition ok :: "CurveFit \<Rightarrow> bool" where
  "ok f = (isValid (engine f) \<and> solve_succeeded f)"

subsection \<open>Output\<close>

text \<open>
  The streams the harness writes to: \<^verbatim>\<open>std::cout\<close>, \<^verbatim>\<open>std::cerr\<close>, and
  \<^verbatim>\<open>*outstream\<close> (the output file when \<^verbatim>\<open>-o\<close> names one, \<^verbatim>\<open>std::cout\<close> otherwise).
  What is written is recorded item by item, one item for each \<^verbatim>\<open><<\<close>; \<open>OptsUsage\<close>
  stands for what \<^verbatim>\<open>opts.usage(stream, "")\<close> of the absent options.h prints.
\<close>

datatype sink = Cout | Cerr | Outstream

datatype item =
    Str string
  | Dbl datum
  | IntVal int
  | BCVal BoundaryConditionTypes
  | SetW nat
  | Endl
  | OptsUsage

type_synonym trace = "(sink \<times> item) list"

text \<open>\<^verbatim>\<open>exit(status)\<close>, with what was written before it.\<close>

type_synonym exit = "int \<times> trace"

definition usage :: string where
  "usage = ''Read an input file where each line has two space-separated floats.'' @ [CHR 0x0A]
     @ ''The first column is X, the second is Y.  Process the arrays of data'' @ [CHR 0x0A]
     @ ''using BSpline with the parameters passed as command-line options,'' @ [CHR 0x0A]
     @ ''and write the result to the output.'' @ [CHR 0x0A]
     @ ''The output has 4 space-separated columns with a single header line'' @ [CHR 0x0A]
     @ ''identifying each column.'' @ [CHR 0x0A]"

subsection \<open>parseCommandLine\<close>

text \<open>
  What the harness takes from outside the repository's sources is a parameter: the
  C library's \<^verbatim>\<open>atoi\<close> and \<^verbatim>\<open>atof\<close>; the string that \<^verbatim>\<open>SplineBase::Version()\<close>
  returns; the values that \<^verbatim>\<open>>>\<close> extracts from \<^verbatim>\<open>std::cin\<close>, or from the file of
  a given name, before the first extraction that fails (\<open>None\<close> for a file that
  \<^verbatim>\<open>std::ifstream\<close> cannot open); whether \<^verbatim>\<open>std::ofstream\<close> can open the file of a given
  name; and the constructor of \<^verbatim>\<open>SplineT\<close>, applied to the value of the static debug
  level (\<^verbatim>\<open>SplineT::Debug(1)\<close>) and its six arguments.
\<close>

record env =
  atoi :: "string \<Rightarrow> int"
  atof :: "string \<Rightarrow> datum"
  Version :: string
  cin_values :: "datum list"
  ifstream_values :: "string \<Rightarrow> datum list option"
  ofstream_opens :: "string \<Rightarrow> bool"
  BSpline :: "int \<Rightarrow> datum list \<Rightarrow> nat \<Rightarrow> datum list \<Rightarrow> datum \<Rightarrow> BoundaryConditionTypes \<Rightarrow> int \<Rightarrow> CurveFit"

text \<open>
  The reference parameters of \<^verbatim>\<open>parseCommandLine\<close> together with its local \<^verbatim>\<open>err\<close>.
  The counter \<^verbatim>\<open>err\<close> is an \<^verbatim>\<open>unsigned int\<close> incremented at most once for each
  option and once after the loop; it is modelled as a natural number (a command line
  holds far fewer than \<open>2^32\<close> options).
\<close>

record params =
  infile :: string
  outfile :: string
  step :: int
  wavelength :: datum
  bc :: BoundaryConditionTypes
  num_nodes :: int
  debug :: bool
  err :: nat

text \<open>
  The option stream: the successive non-zero results \<^verbatim>\<open>optchar\<close> of
  \<^verbatim>\<open>opts(iter, optarg)\<close>, each with the \<^verbatim>\<open>optarg\<close> it sets (\<open>None\<close> for a null
  pointer), up to the first result 0, which ends the \<^verbatim>\<open>while\<close> loop.
\<close>

type_synonym option_stream = "(char \<times> string option) list"

text \<open>
  The initialisation at the head of \<^verbatim>\<open>parseCommandLine\<close>. \<^verbatim>\<open>infile\<close> and
  \<^verbatim>\<open>outfile\<close> are the empty strings that \<^verbatim>\<open>main\<close> declares.
\<close>

definition init_params :: params where
  "init_params =
     \<lparr> infile = [], outfile = [], step = 0, wavelength = - 1,
       bc = BC_ZERO_SECOND, num_nodes = 0, debug = False, err = 0 \<rparr>"

text \<open>The inner \<^verbatim>\<open>switch (degree)\<close> of case \<^verbatim>\<open>'b'\<close>.\<close>

definition bc_of_degree :: "int \<Rightarrow> BoundaryConditionTypes" where
  "bc_of_degree degree =
     (if degree = 0 then BC_ZERO_ENDPOINTS
      else if degree = 1 then BC_ZERO_FIRST
      else BC_ZERO_SECOND)"

text \<open>One pass through the body of the loop: the \<^verbatim>\<open>switch (optchar)\<close>.\<close>

definition handle_option :: "env \<Rightarrow> char \<Rightarrow> string option \<Rightarrow> params \<Rightarrow> exit + params" where
  "handle_option cv optchar optarg s =
     (if optchar = CHR ''h'' then
        Inl (0, [(Cout, OptsUsage), (Cout, Str [CHR 0x0A]), (Cout, Str usage)])
      else if optchar = CHR ''v'' then
        Inl (0, [(Cout, Str ''BSpline version: ''), (Cout, Str (Version cv)), (Cout, Endl),
                 (Cout, Str BSPLINE_URL), (Cout, Endl)])
      else if optchar = CHR ''i'' then
        (case optarg of Some a \<Rightarrow> Inr (s\<lparr>infile := a\<rparr>) | None \<Rightarrow> Inr (s\<lparr>err := err s + 1\<rparr>))
      else if optchar = CHR ''o'' then
        (case optarg of Some a \<Rightarrow> Inr (s\<lparr>outfile := a\<rparr>) | None \<Rightarrow> Inr (s\<lparr>err := err s + 1\<rparr>))
      else if optchar = CHR ''s'' then
        (case optarg of Some a \<Rightarrow> Inr (s\<lparr>step := atoi cv a\<rparr>) | None \<Rightarrow> Inr (s\<lparr>err := err s + 1\<rparr>))
      else if optchar = CHR ''w'' then
        (case optarg of Some a \<Rightarrow> Inr (s\<lparr>wavelength := atof cv a\<rparr>) | None \<Rightarrow> Inr (s\<lparr>err := err s + 1\<rparr>))
      else if optchar = CHR ''b'' then
        (case optarg of Some a \<Rightarrow> Inr (s\<lparr>bc := bc_of_degree (atoi cv a)\<rparr>) | None \<Rightarrow> Inr (s\<lparr>err := err s + 1\<rparr>))
      else if optchar = CHR ''n'' then
        (case optarg of Some a \<Rightarrow> Inr (s\<lparr>num_nodes := atoi cv a\<rparr>) | None \<Rightarrow> Inr (s\<lparr>err := err s + 1\<rparr>))
      else if optchar = CHR ''d'' then
        Inr (s\<lparr>debug := True\<rparr>)
      else
        Inr (s\<lparr>err := err s + 1\<rparr>))"

text \<open>The \<^verbatim>\<open>while (optchar = opts(iter, optarg))\<close> loop.\<close>

fun parse_loop :: "env \<Rightarrow> option_stream \<Rightarrow> params \<Rightarrow> exit + params" where
  "parse_loop cv [] s = Inr s"
| "parse_loop cv ((optchar, optarg) # rest) s =
     (case handle_option cv optchar optarg s of
        Inl e \<Rightarrow> Inl e
      | Inr s' \<Rightarrow> parse_loop cv rest s')"

text \<open>The checks after the loop: "wavelength must be supplied", then \<^verbatim>\<open>if (err)\<close>.\<close>

definition check_params :: "params \<Rightarrow> exit + params" where
  "check_params s =
     (let s' = (if wavelength s < 0 then s\<lparr>err := err s + 1\<rparr> else s)
      in if err s' \<noteq> 0 then Inl (1, [(Cerr, OptsUsage)]) else Inr s')"

definition parseCommandLine :: "env \<Rightarrow> option_stream \<Rightarrow> exit + params" where
  "parseCommandLine cv opts =
     (case parse_loop cv opts init_params of
        Inl e \<Rightarrow> Inl e
      | Inr s \<Rightarrow> check_params s)"

subsection \<open>main: reading the data\<close>

text \<open>
  The loop \<^verbatim>\<open>while (*instream >> f) { ... if (*instream >> g) { ... } else break; }\<close>.
  The second argument is what is left of the values the stream yields: an empty list is
  a failed extraction. The counter \<^verbatim>\<open>i\<close> is a C \<^verbatim>\<open>int\<close> of 32 bits. \<^verbatim>\<open>++i\<close> at
  \<open>2^31 - 1\<close> is undefined in C++; the model takes the wrap-around of two's complement
  machines, so that \<open>i\<close> is a 32-bit word and \<^verbatim>\<open>++i == 1\<close> holds at the first pass and
  again at pass \<open>2^32 + 1\<close>. \<^verbatim>\<open>f -= base\<close> is a subtraction of doubles, which rounds:
  it is the parameter \<open>sub\<close>.
\<close>

fun read_data ::
  "(datum \<Rightarrow> datum \<Rightarrow> datum) \<Rightarrow> datum list \<Rightarrow> datum \<Rightarrow> 32 word \<Rightarrow> datum list \<Rightarrow> datum list
    \<Rightarrow> datum list \<times> datum list" where
  "read_data sub [] base i x y = (x, y)"
| "read_data sub [f] base i x y = (x, y)"
| "read_data sub (f # g # rest) base i x y =
     (let i' = i + 1;
          base' = (if i' = 1 then f else base);
          f' = sub f base'
      in read_data sub rest base' i' (x @ [f']) (y @ [g]))"

subsection \<open>main: subsampling\<close>

text \<open>
  The loop \<^verbatim>\<open>while (xo < x.end() && yo < y.end())\<close>. The four iterators are indices
  into the two vectors, \<open>step'\<close> is the variable \<^verbatim>\<open>step\<close>; \<open>None\<close> is a loop that
  does not end. The condition of the loop keeps the reading indices within the vectors;
  the writing indices never pass them when \<open>step'\<close> is positive (lemma
  \<open>subsample_loop_gen\<close>), so that every write is within the vectors too.
\<close>

partial_function (option) subsample_loop ::
  "int \<Rightarrow> datum list \<Rightarrow> datum list \<Rightarrow> nat \<Rightarrow> nat \<Rightarrow> nat \<Rightarrow> nat
    \<Rightarrow> (datum list \<times> datum list \<times> nat \<times> nat) option" where
  "subsample_loop step' x y xi yi xo yo =
     (if xo < length x \<and> yo < length y then
        subsample_loop step' (x[xi := x ! xo]) (y[yi := y ! yo]) (xi + 1) (yi + 1)
          (nat (int xo + step')) (nat (int yo + step'))
      else Some (x, y, xi, yi))"

text \<open>\<^verbatim>\<open>std::vector::resize(n)\<close>: truncation, or padding with value-initialised elements.\<close>

definition resize :: "nat \<Rightarrow> datum list \<Rightarrow> datum list" where
  "resize n v = take n v @ replicate (n - length v) 0"

definition subsample :: "int \<Rightarrow> datum list \<Rightarrow> datum list \<Rightarrow> (datum list \<times> datum list) option" where
  "subsample step' x y =
     (if step' > 1 then
        (case subsample_loop step' x y 0 0 0 0 of
           None \<Rightarrow> None
         | Some (x', y', xi, yi) \<Rightarrow> Some (resize xi x', resize yi y'))
      else Some (x, y))"

subsection \<open>DumpSpline\<close>

text \<open>
  \<^verbatim>\<open>operator[]\<close> of a vector outside its range is undefined behaviour; the model makes it
  the error \<open>OutOfBounds\<close>. The index is an \<^verbatim>\<open>unsigned int\<close> (32 bits), converted to
  \<^verbatim>\<open>size_t\<close>.
\<close>

datatype error = OutOfBounds

definition vec_at :: "datum list \<Rightarrow> 32 word \<Rightarrow> error + datum" where
  "vec_at v i = (if unat i < length v then Inr (v ! unat i) else Inl OutOfBounds)"

definition evalmid :: bool where
  "evalmid = False"

definition header :: trace where
  "header =
     [(Outstream, SetW 10), (Outstream, Str ''x''),
      (Outstream, SetW 10), (Outstream, Str ''y''),
      (Outstream, SetW 15), (Outstream, Str ''spline(x)''),
      (Outstream, SetW 20), (Outstream, Str ''slope(spline(x))''),
      (Outstream, Endl)]"

text \<open>What one pass through the body of the \<^verbatim>\<open>for\<close> loop writes to \<^verbatim>\<open>*out\<close>.\<close>

definition row :: "datum \<Rightarrow> datum \<Rightarrow> datum \<Rightarrow> datum \<Rightarrow> trace" where
  "row x y ys sl =
     [(Outstream, SetW 10), (Outstream, Dbl x),
      (Outstream, SetW 10), (Outstream, Dbl y),
      (Outstream, SetW 15), (Outstream, Dbl ys),
      (Outstream, SetW 20), (Outstream, Dbl sl),
      (Outstream, Endl)]"

text \<open>
  The body of the \<^verbatim>\<open>for\<close> loop at counter \<open>i\<close>: the row it writes and the new value of
  \<^verbatim>\<open>variance\<close>. \<^verbatim>\<open>(i >> 1) + i%2\<close> is computed in \<^verbatim>\<open>unsigned int\<close>. The last statement
  reads \<^verbatim>\<open>yv[i >> 1]\<close> again, which is \<open>y1\<close>.
\<close>

definition DumpSpline_body ::
  "datum list \<Rightarrow> datum list \<Rightarrow> CurveFit \<Rightarrow> 32 word \<Rightarrow> datum \<Rightarrow> error + (trace \<times> datum)" where
  "DumpSpline_body xv yv spline i variance =
     (case vec_at xv (drop_bit 1 i) of Inl e \<Rightarrow> Inl e | Inr x1 \<Rightarrow>
     (case vec_at xv (drop_bit 1 i + i mod 2) of Inl e \<Rightarrow> Inl e | Inr x2 \<Rightarrow>
     (case vec_at yv (drop_bit 1 i) of Inl e \<Rightarrow> Inl e | Inr y1 \<Rightarrow>
     (case vec_at yv (drop_bit 1 i + i mod 2) of Inl e \<Rightarrow> Inl e | Inr y2 \<Rightarrow>
        (let x = (x1 + x2) / 2;
             y = (y1 + y2) / 2;
             ys = evaluate spline x;
             sl = slope spline x
         in Inr (row x y ys sl,
                 if i mod 2 = 0 then variance + (ys - y1) * (ys - y1) else variance))))))"

text \<open>
  The loop \<^verbatim>\<open>for (unsigned int i = 0; i < 2*xv.size()-1; i += (2 - int(evalmid)))\<close>,
  from the counter \<open>i\<close> on. The bound is computed in \<^verbatim>\<open>size_t\<close> (64 bits, where it wraps
  around), and \<open>i\<close> is converted to \<^verbatim>\<open>size_t\<close> for the comparison; the increment is
  computed in \<^verbatim>\<open>unsigned int\<close> (32 bits, where it wraps around). \<open>None\<close> is a loop that
  does not end.
\<close>

partial_function (option) DumpSpline_loop ::
  "datum list \<Rightarrow> datum list \<Rightarrow> CurveFit \<Rightarrow> 32 word \<Rightarrow> datum \<Rightarrow> trace
    \<Rightarrow> (error + (trace \<times> datum)) option" where
  "DumpSpline_loop xv yv spline i variance out =
     (if (ucast i :: 64 word) < 2 * of_nat (length xv) - 1 then
        (case DumpSpline_body xv yv spline i variance of
           Inl e \<Rightarrow> Some (Inl e)
         | Inr (r, variance') \<Rightarrow>
             DumpSpline_loop xv yv spline (i + (2 - (if evalmid then 1 else 0))) variance' (out @ r))
      else Some (Inr (out, variance)))"

definition DumpSpline :: "datum list \<Rightarrow> datum list \<Rightarrow> CurveFit \<Rightarrow> bool \<Rightarrow> (error + trace) option" where
  "DumpSpline xv yv spline dbg =
     (case DumpSpline_loop xv yv spline 0 0 header of
        None \<Rightarrow> None
      | Some (Inl e) \<Rightarrow> Some (Inl e)
      | Some (Inr (out, variance)) \<Rightarrow>
          (let variance' = variance / real (length xv)
           in Some (Inr (out @
                (if dbg then [(Cerr, Str ''Variance: ''), (Cerr, Dbl variance'), (Cerr, Endl)]
                 else [])))))"

subsection \<open>main\<close>

text \<open>
  The arguments of the constructor call \<^verbatim>\<open>SplineT spline(&x[0], x.size(), &y[0],
  wavelength, bc, num_nodes)\<close>, after \<^verbatim>\<open>if (debug) SplineT::Debug(1)\<close>: the debug
  level is 1 with \<^verbatim>\<open>-d\<close>, and otherwise its initial value, taken to be 0.
\<close>

definition construct :: "env \<Rightarrow> params \<Rightarrow> datum list \<Rightarrow> datum list \<Rightarrow> CurveFit" where
  "construct ev p x y =
     BSpline ev (if debug p then 1 else 0) x (length x) y (wavelength p) (bc p) (num_nodes p)"

text \<open>
  \<^verbatim>\<open>main\<close>, for a build without \<^verbatim>\<open>OOYAMA\<close>, in the order of the source: the
  diagnostic line after \<^verbatim>\<open>parseCommandLine\<close>; the two streams; the data, read and
  subsampled; the construction of the spline and the output. The result of \<open>main\<close> is
  \<open>None\<close> when a loop does not end, an error when a vector is read outside its range,
  and otherwise the exit status with everything written. Diagnostics that the absent
  core may write are not part of it.
\<close>

definition debug_message :: "params \<Rightarrow> trace" where
  "debug_message p =
     (if debug p then
        [(Cout, Str ''Using step interval ''), (Cout, IntVal (step p)),
         (Cout, Str '', cutoff frequency ''), (Cout, Dbl (wavelength p)),
         (Cout, Str '', number of nodes ''), (Cout, IntVal (num_nodes p)),
         (Cout, Str '', and boundary condition type ''), (Cout, BCVal (bc p)),
         (Cout, Str [CHR 0x0A])]
      else [])"

definition unable_to_open :: "string \<Rightarrow> exit" where
  "unable_to_open name =
     (1, [(Cerr, Str ''Unable to open ''), (Cerr, Str name), (Cerr, Str [CHR 0x0A])])"

text \<open>The input and the output stream: the values the input holds, or the exit.\<close>

definition open_streams :: "env \<Rightarrow> params \<Rightarrow> exit + datum list" where
  "open_streams ev p =
     (case (if length (infile p) > 0 then ifstream_values ev (infile p)
            else Some (cin_values ev)) of
        None \<Rightarrow> Inl (unable_to_open (infile p))
      | Some vs \<Rightarrow>
          if length (outfile p) > 0 \<and> \<not> ofstream_opens ev (outfile p)
          then Inl (unable_to_open (outfile p))
          else Inr vs)"

text \<open>
  "Read data" and "Subsample the arrays": the vectors \<open>x\<close> and \<open>y\<close> passed on. As
  everywhere in \<open>main\<close>, the arithmetic of doubles is that of the real numbers.
\<close>

definition read_and_subsample :: "params \<Rightarrow> datum list \<Rightarrow> (datum list \<times> datum list) option" where
  "read_and_subsample p vs =
     (let (x, y) = read_data (\<lambda>a b. a - b) vs 0 0 [] [] in subsample (step p) x y)"

text \<open>The construction of the spline, and the \<^verbatim>\<open>if (spline.ok())\<close> that follows it.\<close>

definition fit_and_dump :: "env \<Rightarrow> params \<Rightarrow> datum list \<Rightarrow> datum list \<Rightarrow> (error + exit) option" where
  "fit_and_dump ev p x y =
     (let spline = construct ev p x y in
      if ok spline then
        (case DumpSpline x y spline (debug p) of
           None \<Rightarrow> None
         | Some (Inl e) \<Rightarrow> Some (Inl e)
         | Some (Inr out) \<Rightarrow> Some (Inr (0, out)))
      else Some (Inr (0, [(Cerr, Str ''Spline setup failed.''), (Cerr, Endl)])))"

definition main :: "env \<Rightarrow> option_stream \<Rightarrow> (error + exit) option" where
  "main ev opts =
     (case parseCommandLine ev opts of
        Inl e \<Rightarrow> Some (Inr e)
      | Inr p \<Rightarrow>
         (case open_streams ev p of
            Inl (status, t) \<Rightarrow> Some (Inr (status, debug_message p @ t))
          | Inr vs \<Rightarrow>
             (case read_and_subsample p vs of
                None \<Rightarrow> None
              | Some (x, y) \<Rightarrow>
                 (case fit_and_dump ev p x y of
                    None \<Rightarrow> None
                  | Some (Inl e) \<Rightarrow> Some (Inl e)
                  | Some (Inr (status, t)) \<Rightarrow> Some (Inr (status, debug_message p @ t))))))"

subsection \<open>Auxiliary notions for the statements\<close>

text \<open>
  The argument of the last occurrence of the option \<open>c\<close> in an option stream, if the
  option occurs with an argument.
\<close>

fun last_arg :: "char \<Rightarrow> option_stream \<Rightarrow> string option" where
  "last_arg c [] = None"
| "last_arg c ((c', a) # rest) =
     (case last_arg c rest of
        Some b \<Rightarrow> Some b
      | None \<Rightarrow> (if c' = c then a else None))"

text \<open>
  The number of passes of the subsampling loop that are left when the reading iterator
  is at index \<open>xo\<close> of a vector of \<open>n\<close> elements and advances by \<open>s\<close>.
\<close>

definition rounds :: "nat \<Rightarrow> nat \<Rightarrow> nat \<Rightarrow> nat" where
  "rounds s n xo = (n - xo + s - 1) div s"

text \<open>
  The value of the counter \<open>i\<close> of the loop of \<^verbatim>\<open>DumpSpline\<close> when it has passed \<open>k\<close>
  times through the body.
\<close>

definition pass_counter :: "nat \<Rightarrow> 32 word" where
  "pass_counter k = of_nat (2 * k)"

text \<open>
  An environment and fits for the concrete instances: the conversions are given on the
  strings that the instances use, the standard input holds the given values, no input
  file can be opened, every output file can, and the constructor returns a fit whose
  engine is built from the wavelength, whose curve is the line through the origin with
  the wavelength as slope, and whose derivative is constantly the node count (so that
  both arguments show in what is written).
\<close>

definition example_fit :: "bool \<Rightarrow> datum \<Rightarrow> int \<Rightarrow> CurveFit" where
  "example_fit solved wl n =
     \<lparr> engine = BSplineBase 4 (Wavelength wl) True,
       solve_succeeded = solved,
       evaluate = (\<lambda>x. wl * x),
       slope = (\<lambda>x. of_int n) \<rparr>"

definition example_env :: "bool \<Rightarrow> datum list \<Rightarrow> env" where
  "example_env solved vs =
     \<lparr> atoi = (\<lambda>s. if s = ''0'' then 0 else if s = ''1'' then 1 else if s = ''2'' then 2
                  else if s = ''3'' then 3 else if s = ''7'' then 7 else 0),
       atof = (\<lambda>s. if s = ''10'' then 10 else if s = ''-5'' then - 5 else 0),
       Version = BSPLINE_VERSION,
       cin_values = vs,
       ifstream_values = (\<lambda>name. None),
       ofstream_opens = (\<lambda>name. True),
       BSpline = (\<lambda>dbg x nx y wl b n. example_fit solved wl n) \<rparr>"

section \<open>Properties of parseCommandLine\<close>

lemma handle_option_no_exit:
  "c \<noteq> CHR ''h'' \<Longrightarrow> c \<noteq> CHR ''v'' \<Longrightarrow> \<exists>s'. handle_option ev c a s = Inr s'"
  by (simp add: handle_option_def split: option.split)

lemma parse_loop_append:
  "parse_loop ev (pre @ post) s =
     (case parse_loop ev pre s of Inl e \<Rightarrow> Inl e | Inr s' \<Rightarrow> parse_loop ev post s')"
  by (induction pre arbitrary: s) (auto split: sum.splits)

lemma parse_loop_no_exit:
  "\<forall>(c, a) \<in> set pre. c \<noteq> CHR ''h'' \<and> c \<noteq> CHR ''v'' \<Longrightarrow> \<exists>s'. parse_loop ev pre s = Inr s'"
proof (induction pre arbitrary: s)
  case Nil
  then show ?case by simp
next
  case (Cons o1 pre)
  obtain c a where o1: "o1 = (c, a)" by (cases o1)
  with Cons.prems have "c \<noteq> CHR ''h''" "c \<noteq> CHR ''v''" by auto
  then obtain s1 where "handle_option ev c a s = Inr s1"
    using handle_option_no_exit by blast
  moreover from Cons.prems have "\<forall>(c, a) \<in> set pre. c \<noteq> CHR ''h'' \<and> c \<noteq> CHR ''v''" by simp
  ultimately show ?case using Cons.IH [of s1] o1 by simp
qed

lemma handle_option_bc:
  "handle_option ev c a s = Inr s' \<Longrightarrow>
     bc s' = (if c = CHR ''b'' then (case a of Some b \<Rightarrow> bc_of_degree (atoi ev b) | None \<Rightarrow> bc s)
              else bc s)"
  by (auto simp: handle_option_def split: if_splits option.splits)

lemma parse_loop_bc:
  "parse_loop ev opts s = Inr s' \<Longrightarrow>
     bc s' = (case last_arg (CHR ''b'') opts of
                None \<Rightarrow> bc s
              | Some a \<Rightarrow> bc_of_degree (atoi ev a))"
proof (induction opts arbitrary: s)
  case Nil
  then show ?case by simp
next
  case (Cons o1 opts)
  obtain c a where o1: "o1 = (c, a)" by (cases o1)
  from Cons.prems o1 obtain s1 where s1: "handle_option ev c a s = Inr s1"
    and rest: "parse_loop ev opts s1 = Inr s'"
    by (auto split: sum.splits)
  show ?case
    using Cons.IH [OF rest] handle_option_bc [OF s1] o1
    by (auto split: option.splits)
qed

lemma check_params_bc: "check_params s = Inr p \<Longrightarrow> bc p = bc s"
  by (auto simp: check_params_def Let_def split: if_splits)

text \<open>
  Claim C2. The boundary-condition selector has exactly the three options of the
  datatype \<open>BoundaryConditionTypes\<close>. \<^verbatim>\<open>parseCommandLine\<close> initialises \<^verbatim>\<open>bc\<close> to
  \<open>BC_ZERO_SECOND\<close>; the argument of \<^verbatim>\<open>-b\<close> is converted by \<^verbatim>\<open>atoi\<close>, and the degree 0
  gives \<open>BC_ZERO_ENDPOINTS\<close>, the degree 1 gives \<open>BC_ZERO_FIRST\<close>, every other integer
  (2 among them) gives \<open>BC_ZERO_SECOND\<close>. Whenever \<^verbatim>\<open>parseCommandLine\<close> returns, \<^verbatim>\<open>bc\<close>
  is \<open>BC_ZERO_SECOND\<close> if no \<^verbatim>\<open>-b\<close> with an argument was given, and otherwise what the
  argument of the last such option selects.
\<close>

theorem boundary_condition_selector:
  "bc init_params = BC_ZERO_SECOND
   \<and> bc_of_degree 0 = BC_ZERO_ENDPOINTS
   \<and> bc_of_degree 1 = BC_ZERO_FIRST
   \<and> (\<forall>degree. degree \<noteq> 0 \<and> degree \<noteq> 1 \<longrightarrow> bc_of_degree degree = BC_ZERO_SECOND)
   \<and> (\<forall>p. parseCommandLine ev opts = Inr p \<longrightarrow>
         bc p = (case last_arg (CHR ''b'') opts of
                   None \<Rightarrow> BC_ZERO_SECOND
                 | Some a \<Rightarrow> bc_of_degree (atoi ev a)))"
proof -
  have "bc p = (case last_arg (CHR ''b'') opts of
                   None \<Rightarrow> BC_ZERO_SECOND
                 | Some a \<Rightarrow> bc_of_degree (atoi ev a))"
    if "parseCommandLine ev opts = Inr p" for p
  proof -
    from that obtain s where s: "parse_loop ev opts init_params = Inr s"
      and p: "check_params s = Inr p"
      by (auto simp: parseCommandLine_def split: sum.splits)
    show ?thesis
      using parse_loop_bc [OF s] check_params_bc [OF p]
      by (simp add: init_params_def split: option.splits)
  qed
  then show ?thesis
    by (simp add: init_params_def bc_of_degree_def)
qed

theorem boundary_condition_selector_witness:
  "parseCommandLine (example_env True [])
       [(CHR ''b'', Some ''1''), (CHR ''w'', Some ''10'')]
     = Inr (init_params\<lparr>wavelength := 10, bc := BC_ZERO_FIRST\<rparr>)
   \<and> bc (init_params\<lparr>wavelength := 10, bc := BC_ZERO_FIRST\<rparr>) = bc_of_degree 1
   \<and> bc_of_degree 2 = BC_ZERO_SECOND \<and> bc_of_degree 7 = BC_ZERO_SECOND"
  using boundary_condition_selector [of "example_env True []"
      "[(CHR ''b'', Some ''1''), (CHR ''w'', Some ''10'')]"]
  by (simp add: parseCommandLine_def handle_option_def check_params_def init_params_def
      example_env_def bc_of_degree_def)

lemma handle_option_wavelength:
  "handle_option ev c a s = Inr s' \<Longrightarrow>
     wavelength s' = (if c = CHR ''w'' then (case a of Some b \<Rightarrow> atof ev b | None \<Rightarrow> wavelength s)
                      else wavelength s)"
  by (auto simp: handle_option_def split: if_splits option.splits)

lemma parse_loop_wavelength:
  "parse_loop ev opts s = Inr s' \<Longrightarrow>
     wavelength s' = (case last_arg (CHR ''w'') opts of
                        None \<Rightarrow> wavelength s
                      | Some a \<Rightarrow> atof ev a)"
proof (induction opts arbitrary: s)
  case Nil
  then show ?case by simp
next
  case (Cons o1 opts)
  obtain c a where o1: "o1 = (c, a)" by (cases o1)
  from Cons.prems o1 obtain s1 where s1: "handle_option ev c a s = Inr s1"
    and rest: "parse_loop ev opts s1 = Inr s'"
    by (auto split: sum.splits)
  show ?case
    using Cons.IH [OF rest] handle_option_wavelength [OF s1] o1
    by (auto split: option.splits)
qed



lemma check_params_Inr:
  "check_params s = Inr p \<Longrightarrow> p = s \<and> \<not> wavelength s < 0 \<and> err s = 0"
  by (auto simp: check_params_def Let_def split: if_splits)

lemma check_params_negative:
  "wavelength s < 0 \<Longrightarrow> check_params s = Inl (1, [(Cerr, OptsUsage)])"
  by (simp add: check_params_def)

lemma parseCommandLine_Inr:
  "parseCommandLine ev opts = Inr p \<Longrightarrow>
     parse_loop ev opts init_params = Inr p \<and> \<not> wavelength p < 0 \<and> err p = 0"
  by (auto simp: parseCommandLine_def split: sum.splits dest: check_params_Inr)

lemma parseCommandLine_negative:
  assumes "\<forall>(c, a) \<in> set opts. c \<noteq> CHR ''h'' \<and> c \<noteq> CHR ''v''"
    and "case last_arg (CHR ''w'') opts of None \<Rightarrow> True | Some a \<Rightarrow> atof ev a < 0"
  shows "parseCommandLine ev opts = Inl (1, [(Cerr, OptsUsage)])"
proof -
  from parse_loop_no_exit [OF assms(1)] obtain s where s: "parse_loop ev opts init_params = Inr s"
    by blast
  from parse_loop_wavelength [OF s] assms(2) have "wavelength s < 0"
    by (simp add: init_params_def split: option.splits)
  then show ?thesis
    using s by (simp add: parseCommandLine_def check_params_negative)
qed


lemma main_version:
  assumes "\<forall>(c, a) \<in> set pre. c \<noteq> CHR ''h'' \<and> c \<noteq> CHR ''v''"
  shows "main ev (pre @ (CHR ''v'', a) # post) =
           Some (Inr (0, [(Cout, Str ''BSpline version: ''), (Cout, Str (Version ev)), (Cout, Endl),
                          (Cout, Str BSPLINE_URL), (Cout, Endl)]))"
proof -
  from parse_loop_no_exit [OF assms] obtain s where "parse_loop ev pre init_params = Inr s"
    by blast
  then have "parseCommandLine ev (pre @ (CHR ''v'', a) # post) =
      Inl (0, [(Cout, Str ''BSpline version: ''), (Cout, Str (Version ev)), (Cout, Endl),
               (Cout, Str BSPLINE_URL), (Cout, Endl)])"
    by (simp add: parseCommandLine_def parse_loop_append handle_option_def)
  then show ?thesis by (simp add: main_def)
qed


lemma handle_option_Version:
  "c \<noteq> CHR ''v'' \<Longrightarrow> handle_option (ev\<lparr>Version := s\<rparr>) c a st = handle_option ev c a st"
  by (simp add: handle_option_def split: option.splits)

lemma parse_loop_Version:
  "\<forall>(c, a) \<in> set opts. c \<noteq> CHR ''v'' \<Longrightarrow>
     parse_loop (ev\<lparr>Version := s\<rparr>) opts st = parse_loop ev opts st"
  by (induction opts arbitrary: st) (auto simp: handle_option_Version split: sum.splits)

lemma main_Version:
  assumes "\<forall>(c, a) \<in> set opts. c \<noteq> CHR ''v''"
  shows "main (ev\<lparr>Version := s\<rparr>) opts = main ev opts"
proof -
  have "parseCommandLine (ev\<lparr>Version := s\<rparr>) opts = parseCommandLine ev opts"
    using parse_loop_Version [OF assms] by (simp add: parseCommandLine_def)
  moreover have "open_streams (ev\<lparr>Version := s\<rparr>) = open_streams ev"
    by (rule ext)+ (simp add: open_streams_def split: option.splits)
  moreover have "fit_and_dump (ev\<lparr>Version := s\<rparr>) = fit_and_dump ev"
    by (rule ext)+ (simp add: fit_and_dump_def construct_def)
  ultimately show ?thesis
    by (simp add: main_def cong: sum.case_cong option.case_cong)
qed

text \<open>
  Claim C7. The version is a constant: \<open>BSPLINE_VERSION\<close> is the string "v1.6-x" (in a
  build without the automatic revision). When the option \<^verbatim>\<open>-v\<close> is reached, that is,
  when no \<^verbatim>\<open>-h\<close> or \<^verbatim>\<open>-v\<close> comes before it, the harness writes "BSpline version: "
  with the string that \<^verbatim>\<open>SplineBase::Version()\<close> returns, then the repository URL, and
  exits with status 0: nothing is read and no spline is constructed, whatever follows on
  the command line. On a command line without \<^verbatim>\<open>-v\<close>, the version string has no effect
  on what \<^verbatim>\<open>main\<close> does.
\<close>

theorem version_option:
  "BSPLINE_VERSION = ''v1.6-x''
   \<and> BSPLINE_URL = ''https://github.com/NCAR/bspline''
   \<and> ((\<forall>(c, a) \<in> set pre. c \<noteq> CHR ''h'' \<and> c \<noteq> CHR ''v'') \<longrightarrow>
        main ev (pre @ (CHR ''v'', a) # post) =
          Some (Inr (0, [(Cout, Str ''BSpline version: ''), (Cout, Str (Version ev)), (Cout, Endl),
                         (Cout, Str BSPLINE_URL), (Cout, Endl)])))
   \<and> ((\<forall>(c, a) \<in> set opts. c \<noteq> CHR ''v'') \<longrightarrow>
        main (ev\<lparr>Version := s\<rparr>) opts = main ev opts)"
  using main_version [where pre = pre and ev = ev and a = a and post = post]
    main_Version [where opts = opts and ev = ev and s = s]
  by (simp add: BSPLINE_VERSION_def BSPLINE_URL_def)



theorem version_option_witness:
  "main (example_env True []) ([(CHR ''d'', None)] @ (CHR ''v'', None) # [(CHR ''w'', Some ''10'')]) =
     Some (Inr (0, [(Cout, Str ''BSpline version: ''), (Cout, Str ''v1.6-x''), (Cout, Endl),
                    (Cout, Str ''https://github.com/NCAR/bspline''), (Cout, Endl)]))
   \<and> main ((example_env False [])\<lparr>Version := ''v1.7-alpha''\<rparr>) [(CHR ''w'', Some ''10'')]
       = main (example_env False []) [(CHR ''w'', Some ''10'')]"
proof -
  have pre: "\<forall>(c, a) \<in> set [(CHR ''d'', None :: string option)]. c \<noteq> CHR ''h'' \<and> c \<noteq> CHR ''v''"
    by simp
  have opts: "\<forall>(c, a) \<in> set [(CHR ''w'', Some ''10'')]. c \<noteq> CHR ''v''"
    by simp
  have v: "Version (example_env True []) = ''v1.6-x''"
    by (simp add: example_env_def BSPLINE_VERSION_def)
  have "main (example_env True []) ([(CHR ''d'', None)] @ (CHR ''v'', None) # [(CHR ''w'', Some ''10'')]) =
     Some (Inr (0, [(Cout, Str ''BSpline version: ''), (Cout, Str (Version (example_env True []))),
                    (Cout, Endl), (Cout, Str BSPLINE_URL), (Cout, Endl)]))"
    using version_option [where pre = "[(CHR ''d'', None)]" and ev = "example_env True []"
      and a = None and post = "[(CHR ''w'', Some ''10'')]"] pre
    by blast
  moreover have "main ((example_env False [])\<lparr>Version := ''v1.7-alpha''\<rparr>) [(CHR ''w'', Some ''10'')]
       = main (example_env False []) [(CHR ''w'', Some ''10'')]"
    using version_option [where opts = "[(CHR ''w'', Some ''10'')]" and s = "''v1.7-alpha''"
      and ev = "example_env False []"] opts
    by blast
  ultimately show ?thesis
    by (simp only: v BSPLINE_URL_def simp_thms)
qed

section \<open>Configuration errors\<close>

text \<open>
  Claim C1, as the code has it. A wavelength that is zero or negative, and a node count
  below the minimum, make the Basis Engine invalid, and with it every Curve Fit built on
  it (the engine and the fit are modelled from the specification). In the harness, only
  a wavelength that is unset or negative is caught before construction: when the loop
  over the options ends (no \<^verbatim>\<open>-h\<close> or \<^verbatim>\<open>-v\<close> exits before) and no wavelength was given
  or the last one given is negative, \<^verbatim>\<open>parseCommandLine\<close> writes the usage to
  \<^verbatim>\<open>std::cerr\<close> and exits with status 1, so \<^verbatim>\<open>main\<close> constructs nothing. Whenever
  \<^verbatim>\<open>parseCommandLine\<close> returns, the wavelength is not negative; a wavelength of exactly
  zero passes the check after the loop.
\<close>

theorem wavelength_configuration_error:
  "(w \<le> 0 \<longrightarrow> \<not> isValid (BSplineBase min_nodes (Wavelength w) factorized))
   \<and> (n < min_nodes \<longrightarrow> \<not> isValid (BSplineBase min_nodes (NodeCount n) factorized))
   \<and> (\<not> isValid (engine f) \<longrightarrow> \<not> ok f)
   \<and> ((\<forall>(c, a) \<in> set opts. c \<noteq> CHR ''h'' \<and> c \<noteq> CHR ''v'')
        \<and> (case last_arg (CHR ''w'') opts of None \<Rightarrow> True | Some a \<Rightarrow> atof ev a < 0) \<longrightarrow>
        parseCommandLine ev opts = Inl (1, [(Cerr, OptsUsage)])
        \<and> main ev opts = Some (Inr (1, [(Cerr, OptsUsage)])))
   \<and> (\<forall>p. parseCommandLine ev opts = Inr p \<longrightarrow> 0 \<le> wavelength p)
   \<and> (wavelength s = 0 \<and> err s = 0 \<longrightarrow> check_params s = Inr s)"
proof -
  have "0 \<le> wavelength p" if "parseCommandLine ev opts = Inr p" for p
    using parseCommandLine_Inr [OF that] by simp
  moreover have "parseCommandLine ev opts = Inl (1, [(Cerr, OptsUsage)])
        \<and> main ev opts = Some (Inr (1, [(Cerr, OptsUsage)]))"
    if "\<forall>(c, a) \<in> set opts. c \<noteq> CHR ''h'' \<and> c \<noteq> CHR ''v''"
      and "case last_arg (CHR ''w'') opts of None \<Rightarrow> True | Some a \<Rightarrow> atof ev a < 0"
    using parseCommandLine_negative [OF that] by (simp add: main_def)
  moreover have "\<not> isValid (engine f) \<longrightarrow> \<not> ok f"
    by (simp add: ok_def)
  moreover have "w \<le> 0 \<longrightarrow> \<not> isValid (BSplineBase min_nodes (Wavelength w) factorized)"
    by (simp add: isValid_def BSplineBase_def)
  moreover have "n < min_nodes \<longrightarrow> \<not> isValid (BSplineBase min_nodes (NodeCount n) factorized)"
    by (simp add: isValid_def BSplineBase_def)
  moreover have "wavelength s = 0 \<and> err s = 0 \<longrightarrow> check_params s = Inr s"
    by (simp add: check_params_def)
  ultimately show ?thesis by blast
qed

lemma example_parse_10:
  "parseCommandLine (example_env b vs) [(CHR ''w'', Some ''10'')] = Inr (init_params\<lparr>wavelength := 10\<rparr>)"
  by (simp add: example_env_def init_params_def parseCommandLine_def handle_option_def
      check_params_def)

lemma example_parse_0:
  "parseCommandLine (example_env b vs) [(CHR ''w'', Some ''0'')] = Inr (init_params\<lparr>wavelength := 0\<rparr>)"
  by (simp add: example_env_def init_params_def parseCommandLine_def handle_option_def
      check_params_def)

theorem wavelength_configuration_error_witness:
  "\<not> isValid (BSplineBase 4 (Wavelength (- 5)) True)
   \<and> \<not> isValid (BSplineBase 4 (NodeCount 3) True)
   \<and> \<not> ok (example_fit True (- 5) 0)
   \<and> parseCommandLine (example_env True []) [(CHR ''n'', Some ''7''), (CHR ''w'', Some ''-5'')]
       = Inl (1, [(Cerr, OptsUsage)])
   \<and> main (example_env True []) [(CHR ''n'', Some ''7''), (CHR ''w'', Some ''-5'')]
       = Some (Inr (1, [(Cerr, OptsUsage)]))
   \<and> parseCommandLine (example_env True []) [(CHR ''w'', Some ''10'')]
       = Inr (init_params\<lparr>wavelength := 10\<rparr>)
   \<and> (0::real) \<le> wavelength (init_params\<lparr>wavelength := 10\<rparr>)
   \<and> check_params (init_params\<lparr>wavelength := 0\<rparr>) = Inr (init_params\<lparr>wavelength := 0\<rparr>)"
proof -
  note t = wavelength_configuration_error [where w = "- 5" and min_nodes = 4 and factorized = True
      and n = 3 and f = "example_fit True (- 5) 0"
      and opts = "[(CHR ''n'', Some ''7''), (CHR ''w'', Some ''-5'')]" and ev = "example_env True []"
      and s = "init_params\<lparr>wavelength := 0\<rparr>"]
  note u = wavelength_configuration_error [where opts = "[(CHR ''w'', Some ''10'')]"
      and ev = "example_env True []"]
  have h1: "(- 5 :: real) \<le> 0" and h2: "(3 :: int) < 4" by simp_all
  have h3: "\<not> isValid (engine (example_fit True (- 5) 0))"
    by (simp add: example_fit_def isValid_def BSplineBase_def)
  have h4: "\<forall>(c, a) \<in> set [(CHR ''n'', Some ''7''), (CHR ''w'', Some ''-5'')]. c \<noteq> CHR ''h'' \<and> c \<noteq> CHR ''v''"
    by simp
  have h5: "case last_arg (CHR ''w'') [(CHR ''n'', Some ''7''), (CHR ''w'', Some ''-5'')] of
      None \<Rightarrow> True | Some a \<Rightarrow> atof (example_env True []) a < 0"
    by (simp add: example_env_def)
  have h6: "wavelength (init_params\<lparr>wavelength := 0\<rparr>) = 0 \<and> err (init_params\<lparr>wavelength := 0\<rparr>) = 0"
    by (simp add: init_params_def)
  from t h1 have c1: "\<not> isValid (BSplineBase 4 (Wavelength (- 5)) True)" by blast
  from t h2 have c2: "\<not> isValid (BSplineBase 4 (NodeCount 3) True)" by blast
  from t h3 have c3: "\<not> ok (example_fit True (- 5) 0)" by blast
  from t h4 h5 have c4: "parseCommandLine (example_env True []) [(CHR ''n'', Some ''7''), (CHR ''w'', Some ''-5'')]
       = Inl (1, [(Cerr, OptsUsage)])
     \<and> main (example_env True []) [(CHR ''n'', Some ''7''), (CHR ''w'', Some ''-5'')]
       = Some (Inr (1, [(Cerr, OptsUsage)]))" by blast
  from t h6 have c6: "check_params (init_params\<lparr>wavelength := 0\<rparr>) = Inr (init_params\<lparr>wavelength := 0\<rparr>)"
    by blast
  from u example_parse_10 [of True "[]"] have c5: "(0::real) \<le> wavelength (init_params\<lparr>wavelength := 10\<rparr>)"
    by blast
  from c1 c2 c3 c4 c5 c6 example_parse_10 [of True "[]"] show ?thesis by blast
qed

lemma subsample_step_0: "subsample 0 x y = Some (x, y)"
  by (simp add: subsample_def)

text \<open>
  Claim C1, as stated, fails for the wavelength zero: \<^verbatim>\<open>-w 0\<close> is not caught before
  construction. \<^verbatim>\<open>parseCommandLine\<close> returns with the wavelength 0, and \<^verbatim>\<open>main\<close> reads
  the data and constructs the spline; in the example environment the engine built from
  this wavelength is invalid, and \<^verbatim>\<open>main\<close> reports the failed setup.
\<close>

theorem zero_wavelength_reaches_constructor:
  "parseCommandLine (example_env True [1, 2, 3, 4]) [(CHR ''w'', Some ''0'')]
     = Inr (init_params\<lparr>wavelength := 0\<rparr>)
   \<and> wavelength (init_params\<lparr>wavelength := 0\<rparr>) = 0
   \<and> main (example_env True [1, 2, 3, 4]) [(CHR ''w'', Some ''0'')]
       = Some (Inr (0, [(Cerr, Str ''Spline setup failed.''), (Cerr, Endl)]))"
proof -
  have p: "parseCommandLine (example_env True [1, 2, 3, 4]) [(CHR ''w'', Some ''0'')]
     = Inr (init_params\<lparr>wavelength := 0\<rparr>)"
    by (rule example_parse_0)
  have o: "open_streams (example_env True [1, 2, 3, 4]) (init_params\<lparr>wavelength := 0\<rparr>) = Inr [1, 2, 3, 4]"
    by (simp add: open_streams_def example_env_def init_params_def)
  have r: "read_and_subsample (init_params\<lparr>wavelength := 0\<rparr>) [1, 2, 3, 4] = Some ([0, 2], [2, 4])"
    by (simp add: read_and_subsample_def init_params_def subsample_def)
  have f: "fit_and_dump (example_env True [1, 2, 3, 4]) (init_params\<lparr>wavelength := 0\<rparr>) [0, 2] [2, 4]
      = Some (Inr (0, [(Cerr, Str ''Spline setup failed.''), (Cerr, Endl)]))"
    by (simp add: fit_and_dump_def construct_def example_env_def example_fit_def ok_def isValid_def
        BSplineBase_def init_params_def)
  have d: "debug_message (init_params\<lparr>wavelength := 0\<rparr>) = []"
    by (simp add: debug_message_def init_params_def)
  show ?thesis
    by (simp add: main_def p o r f d)
qed

section \<open>Reading the data\<close>

lemma upt_Suc_shift: "[0..<Suc n] = 0 # map Suc [0..<n]"
  by (metis map_Suc_upt upt_conv_Cons zero_less_Suc)

lemma increment_is_1: "(i + 1 = (1 :: 32 word)) = (unat i = 0)"
  by (simp add: unat_eq_0)







section \<open>Subsampling\<close>

lemma rounds_done: "0 < s \<Longrightarrow> n \<le> xo \<Longrightarrow> rounds s n xo = 0"
  by (simp add: rounds_def)

lemma rounds_step:
  assumes "0 < s" "xo < n"
  shows "rounds s n xo = Suc (rounds s n (xo + s))"
proof (cases "xo + s \<le> n")
  case True
  then have "n - xo + s - 1 = (n - (xo + s) + s - 1) + s"
    using assms by simp
  then have "(n - xo + s - 1) div s = (n - (xo + s) + s - 1) div s + 1"
    using assms(1) by (simp only: div_add_self2)
  then show ?thesis
    by (simp only: rounds_def Suc_eq_plus1)
next
  case False
  have "(n - xo + s - 1) div s = 1"
  proof (rule div_nat_eqI)
    show "s * 1 \<le> n - xo + s - 1" using assms by simp
    show "n - xo + s - 1 < s * Suc 1" using False assms by simp
  qed
  moreover have "(n - (xo + s) + s - 1) div s = 0"
    using False assms by simp
  ultimately show ?thesis
    by (simp only: rounds_def One_nat_def)
qed


lemma subsample_loop_gen:
  assumes "0 < s" "length y = length x" "xi \<le> xo"
  shows "\<exists>x' y'. subsample_loop (int s) x y xi xi xo xo
          = Some (x', y', xi + rounds s (length x) xo, xi + rounds s (length x) xo)
      \<and> take (xi + rounds s (length x) xo) x'
          = take xi x @ map (\<lambda>j. x ! (xo + j * s)) [0..<rounds s (length x) xo]
      \<and> take (xi + rounds s (length x) xo) y'
          = take xi y @ map (\<lambda>j. y ! (xo + j * s)) [0..<rounds s (length x) xo]"
  using assms
proof (induction "length x - xo" arbitrary: x y xi xo rule: less_induct)
  case less
  show ?case
  proof (cases "xo < length x")
    case False
    then have "rounds s (length x) xo = 0"
      using less.prems by (simp add: rounds_done)
    moreover have "subsample_loop (int s) x y xi xi xo xo = Some (x, y, xi, xi)"
      using False less.prems by (subst subsample_loop.simps) simp
    ultimately show ?thesis by simp
  next
    case True
    define x1 where "x1 = x[xi := x ! xo]"
    define y1 where "y1 = y[xi := y ! xo]"
    define m where "m = rounds s (length x) (xo + s)"
    have lx1: "length x1 = length x" and ly1: "length y1 = length x1"
      using less.prems by (simp_all add: x1_def y1_def)
    have m: "rounds s (length x) xo = Suc m"
      unfolding m_def using rounds_step [OF less.prems(1) True] .
    have step: "subsample_loop (int s) x y xi xi xo xo =
        subsample_loop (int s) x1 y1 (Suc xi) (Suc xi) (xo + s) (xo + s)"
      using True less.prems
      by (subst subsample_loop.simps) (simp add: nat_add_distrib x1_def y1_def)
    have dec: "length x1 - (xo + s) < length x - xo"
      using True less.prems by (simp add: lx1)
    have le: "Suc xi \<le> xo + s"
      using less.prems by simp
    have xi: "xi < length x" "xi < length y"
      using True less.prems by simp_all
    have neq: "xi \<noteq> xo + s + j * s" for j
      using less.prems by simp
    have tx1: "take (Suc xi) x1 = take xi x @ [x ! xo]"
      using xi by (simp add: take_Suc_conv_app_nth x1_def)
    have ty1: "take (Suc xi) y1 = take xi y @ [y ! xo]"
      using xi by (simp add: take_Suc_conv_app_nth y1_def)
    have x1n: "x1 ! (xo + s + j * s) = x ! (xo + s + j * s)" for j
      unfolding x1_def by (rule nth_list_update_neq [OF neq])
    have y1n: "y1 ! (xo + s + j * s) = y ! (xo + s + j * s)" for j
      unfolding y1_def by (rule nth_list_update_neq [OF neq])
    have mapx: "map (\<lambda>j. x ! (xo + j * s)) [0..<Suc m]
        = x ! xo # map (\<lambda>j. x ! (xo + s + j * s)) [0..<m]"
      by (simp add: upt_Suc_shift comp_def add.assoc del: upt_Suc)
    have mapy: "map (\<lambda>j. y ! (xo + j * s)) [0..<Suc m]
        = y ! xo # map (\<lambda>j. y ! (xo + s + j * s)) [0..<m]"
      by (simp add: upt_Suc_shift comp_def add.assoc del: upt_Suc)
    have "\<exists>x' y'. subsample_loop (int s) x1 y1 (Suc xi) (Suc xi) (xo + s) (xo + s)
            = Some (x', y', Suc xi + m, Suc xi + m)
        \<and> take (Suc xi + m) x' = take (Suc xi) x1 @ map (\<lambda>j. x1 ! (xo + s + j * s)) [0..<m]
        \<and> take (Suc xi + m) y' = take (Suc xi) y1 @ map (\<lambda>j. y1 ! (xo + s + j * s)) [0..<m]"
      using less.hyps [OF dec less.prems(1) ly1 le] unfolding lx1 m_def .
    then show ?thesis
    proof (elim exE conjE)
      fix x' y'
      assume r: "subsample_loop (int s) x1 y1 (Suc xi) (Suc xi) (xo + s) (xo + s)
            = Some (x', y', Suc xi + m, Suc xi + m)"
        and tx: "take (Suc xi + m) x' = take (Suc xi) x1 @ map (\<lambda>j. x1 ! (xo + s + j * s)) [0..<m]"
        and ty: "take (Suc xi + m) y' = take (Suc xi) y1 @ map (\<lambda>j. y1 ! (xo + s + j * s)) [0..<m]"
      have a: "subsample_loop (int s) x y xi xi xo xo = Some (x', y', xi + Suc m, xi + Suc m)"
        using r by (simp add: step)
      have b: "take (xi + Suc m) x' = take xi x @ map (\<lambda>j. x ! (xo + j * s)) [0..<Suc m]"
        using tx unfolding tx1 mapx x1n by simp
      have c: "take (xi + Suc m) y' = take xi y @ map (\<lambda>j. y ! (xo + j * s)) [0..<Suc m]"
        using ty unfolding ty1 mapy y1n by simp
      show ?thesis
        unfolding m using a b c by (intro exI conjI)
    qed
  qed
qed

lemma ceiling_div_nat:
  assumes "0 < s"
  shows "nat \<lceil>real n / real s\<rceil> = (n + s - 1) div s"
proof -
  define k where "k = (n + s - 1) div s"
  have "k * s \<le> n + s - 1"
    unfolding k_def by (rule div_times_less_eq_dividend)
  then have lo: "k * s + 1 \<le> n + s"
    using assms by simp
  have "n + s - 1 < s + k * s"
    unfolding k_def using assms by (rule dividend_less_div_times)
  then have hi: "n \<le> k * s"
    using assms by simp
  have rs: "0 < real s" using assms by simp
  have "real n \<le> real k * real s"
    using hi by (metis of_nat_le_iff of_nat_mult)
  then have up: "real n / real s \<le> of_int (int k)"
    using rs by (simp add: pos_divide_le_eq)
  have "real k * real s + 1 \<le> real n + real s"
    using lo by (metis of_nat_le_iff of_nat_mult of_nat_add of_nat_1)
  then have "(real k - 1) * real s < real n"
    by (simp add: algebra_simps)
  then have low: "of_int (int k) - 1 < real n / real s"
    using rs by (simp add: pos_less_divide_eq)
  have "\<lceil>real n / real s\<rceil> = int k"
    using low up by (rule ceiling_unique)
  then show ?thesis by (simp add: k_def)
qed


lemma subsample_gt_1:
  assumes "length x = length y" "1 < step'"
  shows "subsample step' x y =
    Some (map (\<lambda>k. x ! (k * nat step')) [0..<rounds (nat step') (length x) 0],
          map (\<lambda>k. y ! (k * nat step')) [0..<rounds (nat step') (length x) 0])"
proof -
  define s where "s = nat step'"
  define m where "m = rounds s (length x) 0"
  have s: "0 < s" "int s = step'"
    using assms(2) by (simp_all add: s_def)
  have "\<exists>x' y'. subsample_loop (int s) x y 0 0 0 0 = Some (x', y', 0 + m, 0 + m)
      \<and> take (0 + m) x' = take 0 x @ map (\<lambda>j. x ! (0 + j * s)) [0..<m]
      \<and> take (0 + m) y' = take 0 y @ map (\<lambda>j. y ! (0 + j * s)) [0..<m]"
    unfolding m_def using s(1) assms(1) by (intro subsample_loop_gen) simp_all
  then show ?thesis
  proof (elim exE conjE)
    fix x' y'
    assume r: "subsample_loop (int s) x y 0 0 0 0 = Some (x', y', 0 + m, 0 + m)"
      and tx: "take (0 + m) x' = take 0 x @ map (\<lambda>j. x ! (0 + j * s)) [0..<m]"
      and ty: "take (0 + m) y' = take 0 y @ map (\<lambda>j. y ! (0 + j * s)) [0..<m]"
    from tx have tx': "take m x' = map (\<lambda>j. x ! (j * s)) [0..<m]" by simp
    from ty have ty': "take m y' = map (\<lambda>j. y ! (j * s)) [0..<m]" by simp
    from tx' have "length (take m x') = m" by simp
    then have mx: "m \<le> length x'" by simp
    from ty' have "length (take m y') = m" by simp
    then have my: "m \<le> length y'" by simp
    have "resize m x' = map (\<lambda>j. x ! (j * s)) [0..<m]"
      using mx tx' by (simp add: resize_def)
    moreover have "resize m y' = map (\<lambda>j. y ! (j * s)) [0..<m]"
      using my ty' by (simp add: resize_def)
    moreover have "subsample_loop step' x y 0 0 0 0 = Some (x', y', m, m)"
      using r s(2) by simp
    ultimately show ?thesis
      using assms(2) unfolding m_def s_def by (simp add: subsample_def)
  qed
qed

lemma rounds_index:
  assumes "0 < s" "k < rounds s n 0"
  shows "k * s < n"
proof -
  have "rounds s n 0 * s \<le> n + s - 1"
    unfolding rounds_def by (simp only: diff_zero) (rule div_times_less_eq_dividend)
  moreover have "Suc k * s \<le> rounds s n 0 * s"
    using assms(2) by (intro mult_le_mono1) simp
  ultimately have "k * s + s \<le> n + s - 1"
    by simp
  then show ?thesis
    using assms(1) by simp
qed

text \<open>
  Claim C8. For vectors \<open>x\<close> and \<open>y\<close> of the same size \<open>n\<close> and every value of
  \<^verbatim>\<open>step\<close>: when \<^verbatim>\<open>step > 1\<close>, the subsampling loop ends and leaves in \<open>x\<close> and \<open>y\<close> the
  elements that were at the indices 0, \<^verbatim>\<open>step\<close>, 2 \<^verbatim>\<open>step\<close>, ... (all of them within the
  vectors), in this order, both resized to the ceiling of \<open>n / step\<close>; when
  \<^verbatim>\<open>step <= 1\<close>, both vectors are unchanged.
\<close>

theorem subsample_selects_every_step:
  assumes "length x = length y"
  shows "(1 < step' \<longrightarrow>
           subsample step' x y =
             Some (map (\<lambda>k. x ! (k * nat step')) [0..<nat \<lceil>real (length x) / real_of_int step'\<rceil>],
                   map (\<lambda>k. y ! (k * nat step')) [0..<nat \<lceil>real (length y) / real_of_int step'\<rceil>]))
       \<and> (1 < step' \<longrightarrow>
           (\<forall>k < nat \<lceil>real (length x) / real_of_int step'\<rceil>. k * nat step' < length x))
       \<and> (step' \<le> 1 \<longrightarrow> subsample step' x y = Some (x, y))"
proof -
  have "k * nat step' < length x"
    if "1 < step'" and "k < nat \<lceil>real (length x) / real_of_int step'\<rceil>" for k
  proof -
    have "real_of_int step' = real (nat step')"
      using that by simp
    then have "nat \<lceil>real (length x) / real_of_int step'\<rceil> = rounds (nat step') (length x) 0"
      using that ceiling_div_nat [of "nat step'" "length x"] by (simp add: rounds_def)
    with that show ?thesis
      by (intro rounds_index) simp_all
  qed
  moreover have "subsample step' x y =
      Some (map (\<lambda>k. x ! (k * nat step')) [0..<nat \<lceil>real (length x) / real_of_int step'\<rceil>],
            map (\<lambda>k. y ! (k * nat step')) [0..<nat \<lceil>real (length y) / real_of_int step'\<rceil>])"
    if "1 < step'"
  proof -
    have "real_of_int step' = real (nat step')"
      using that by simp
    then have "nat \<lceil>real (length x) / real_of_int step'\<rceil> = rounds (nat step') (length x) 0"
      using that ceiling_div_nat [of "nat step'" "length x"] by (simp add: rounds_def)
    then show ?thesis
      using subsample_gt_1 [OF assms that] assms by simp
  qed
  moreover have "subsample step' x y = Some (x, y)" if "step' \<le> 1"
    using that by (simp add: subsample_def)
  ultimately show ?thesis by blast
qed

theorem subsample_selects_every_step_witness:
  "length [10, 11, 12, 13, 14, 15, 16 :: real] = length [20, 21, 22, 23, 24, 25, 26 :: real]
   \<and> subsample 3 [10, 11, 12, 13, 14, 15, 16] [20, 21, 22, 23, 24, 25, 26]
       = Some ([10, 13, 16], [20, 23, 26])
   \<and> subsample 1 [10, 11, 12, 13, 14, 15, 16] [20, 21, 22, 23, 24, 25, 26]
       = Some ([10, 11, 12, 13, 14, 15, 16], [20, 21, 22, 23, 24, 25, 26])"
proof -
  have l: "length [10, 11, 12, 13, 14, 15, 16 :: real] = length [20, 21, 22, 23, 24, 25, 26 :: real]"
    by simp
  have c: "nat \<lceil>real (length [10, 11, 12, 13, 14, 15, 16 :: real]) / real_of_int 3\<rceil> = 3"
    "nat \<lceil>real (length [20, 21, 22, 23, 24, 25, 26 :: real]) / real_of_int 3\<rceil> = 3"
    by simp_all
  have u: "[0..<3] = [0, 1, 2]"
    by (simp add: upt_rec)
  note t = subsample_selects_every_step [OF l]
  from t [of 3] have "subsample 3 [10, 11, 12, 13, 14, 15, 16] [20, 21, 22, 23, 24, 25, 26]
       = Some ([10, 13, 16], [20, 23, 26])"
    unfolding c u by simp
  moreover from t [of 1] have "subsample 1 [10, 11, 12, 13, 14, 15, 16] [20, 21, 22, 23, 24, 25, 26]
       = Some ([10, 11, 12, 13, 14, 15, 16], [20, 21, 22, 23, 24, 25, 26])"
    by simp
  ultimately show ?thesis using l by simp
qed

section \<open>DumpSpline\<close>

lemma unat_pass_counter: "k < 2 ^ 31 \<Longrightarrow> unat (pass_counter k) = 2 * k"
  unfolding pass_counter_def by (simp add: unat_of_nat del: of_nat_mult)

lemma unat_ucast_counter: "unat (ucast (i :: 32 word) :: 64 word) = unat i"
proof -
  have "unat i < 2 ^ 32"
    using unsigned_less [of i, where ?'a = nat] by simp
  then have "unat i < 2 ^ 64"
    by simp
  then show ?thesis
    by (simp add: unsigned_ucast_eq take_bit_nat_eq_self)
qed

lemma unat_bound:
  assumes "0 < n" "n < 2 ^ 32"
  shows "unat (2 * of_nat n - 1 :: 64 word) = 2 * n - 1"
proof -
  have "(of_nat (2 * n - 1) :: 64 word) = 2 * of_nat n - 1"
    using assms(1) by simp
  moreover have "2 * n - 1 < 2 ^ 64"
    using assms(2) by simp
  then have "unat (of_nat (2 * n - 1) :: 64 word) = 2 * n - 1"
    by (simp add: unat_of_nat del: of_nat_mult of_nat_diff)
  ultimately show ?thesis
    by simp
qed

lemma bound_empty: "(ucast (0 :: 32 word) :: 64 word) < 2 * of_nat 0 - 1"
  by (simp add: word_greater_zero_iff)

lemma pass_counter_drop_bit: "k < 2 ^ 31 \<Longrightarrow> unat (drop_bit 1 (pass_counter k)) = k"
  by (simp add: unat_div unat_pass_counter drop_bit_eq_div)

lemma pass_counter_mod_2: "k < 2 ^ 31 \<Longrightarrow> pass_counter k mod 2 = 0"
proof -
  assume k: "k < 2 ^ 31"
  have "unat (pass_counter k mod 2) = 0"
    by (simp add: unat_mod unat_pass_counter [OF k])
  then show ?thesis
    by (simp add: word_unat_eq_iff)
qed

lemma pass_counter_next: "pass_counter k + (2 - (if evalmid then 1 else 0)) = pass_counter (Suc k)"
  by (simp add: evalmid_def pass_counter_def)

lemma pass_counter_0: "pass_counter 0 = 0"
  by (simp add: pass_counter_def)

lemma loop_condition:
  assumes "0 < n" "n < 2 ^ 31" "k \<le> n"
  shows "(ucast (pass_counter k) :: 64 word) < 2 * of_nat n - 1 \<longleftrightarrow> k < n"
proof -
  have "k < 2 ^ 31 \<or> k = n" using assms by auto
  have n: "n < 2 ^ 32" using assms(2) by simp
  have "unat (pass_counter k) = 2 * k"
    unfolding pass_counter_def using assms by (simp add: unat_of_nat del: of_nat_mult)
  then show ?thesis
    using assms by (auto simp add: word_less_nat_alt unat_ucast_counter unat_bound [OF assms(1) n])
qed


lemma DumpSpline_body_even:
  assumes "even (unat i)" "unat i div 2 < length xv" "length yv = length xv"
  shows "DumpSpline_body xv yv spline i variance =
     Inr (row (xv ! (unat i div 2)) (yv ! (unat i div 2))
            (evaluate spline (xv ! (unat i div 2))) (slope spline (xv ! (unat i div 2))),
          variance + (evaluate spline (xv ! (unat i div 2)) - yv ! (unat i div 2))
                     * (evaluate spline (xv ! (unat i div 2)) - yv ! (unat i div 2)))"
proof -
  have "unat (i mod 2) = 0"
    using assms(1) by (simp add: unat_mod)
  then have m: "i mod 2 = 0"
    by (simp add: word_unat_eq_iff)
  have d: "unat (drop_bit 1 i) = unat i div 2"
    by (simp add: unat_div drop_bit_eq_div)
  have x: "vec_at xv (drop_bit 1 i) = Inr (xv ! (unat i div 2))"
    using assms(2) by (simp only: vec_at_def d if_True)
  have y: "vec_at yv (drop_bit 1 i) = Inr (yv ! (unat i div 2))"
    using assms(2,3) by (simp only: vec_at_def d if_True)
  show ?thesis
    unfolding DumpSpline_body_def m add_0_right x y by (simp add: Let_def)
qed

lemma DumpSpline_body_pass:
  assumes "k < length xv" "length yv = length xv" "length xv < 2 ^ 31"
  shows "DumpSpline_body xv yv spline (pass_counter k) variance =
     Inr (row (xv ! k) (yv ! k) (evaluate spline (xv ! k)) (slope spline (xv ! k)),
          variance + (evaluate spline (xv ! k) - yv ! k) * (evaluate spline (xv ! k) - yv ! k))"
proof -
  have "k < 2 ^ 31" using assms by simp
  then have u: "unat (pass_counter k) = 2 * k"
    by (rule unat_pass_counter)
  have "even (unat (pass_counter k))" "unat (pass_counter k) div 2 = k"
    by (simp_all add: u)
  then show ?thesis
    using DumpSpline_body_even [of "pass_counter k" xv yv spline variance] assms(1,2) by simp
qed

lemma DumpSpline_loop_pass:
  assumes "length yv = length xv" "length xv < 2 ^ 31" "0 < length xv" "k \<le> length xv"
  shows "DumpSpline_loop xv yv spline (pass_counter k) variance out =
     Some (Inr (out @ concat (map (\<lambda>j. row (xv ! j) (yv ! j) (evaluate spline (xv ! j))
                                       (slope spline (xv ! j))) [k..<length xv]),
                variance + sum_list (map (\<lambda>j. (evaluate spline (xv ! j) - yv ! j)
                                              * (evaluate spline (xv ! j) - yv ! j)) [k..<length xv])))"
  using assms(4)
proof (induction "length xv - k" arbitrary: k variance out)
  case 0
  then have k: "k = length xv" by simp
  have "\<not> (ucast (pass_counter k) :: 64 word) < 2 * of_nat (length xv) - 1"
    using loop_condition [OF assms(3) assms(2) "0.prems"] k by simp
  then show ?case
    by (subst DumpSpline_loop.simps) (simp add: k)
next
  case (Suc d)
  then have k: "k < length xv" by simp
  have c: "(ucast (pass_counter k) :: 64 word) < 2 * of_nat (length xv) - 1"
    using loop_condition [OF assms(3) assms(2) Suc.prems] k by simp
  have u: "[k..<length xv] = k # [Suc k..<length xv]"
    using k by (rule upt_conv_Cons)
  have d: "d = length xv - Suc k" using Suc.hyps(2) by simp
  have s: "Suc k \<le> length xv" using k by simp
  show ?case
    by (subst DumpSpline_loop.simps)
      (simp only: c if_True DumpSpline_body_pass [OF k assms(1) assms(2)] sum.case prod.case
        pass_counter_next Suc.hyps(1) [OF d s] u list.map concat.simps sum_list.Cons append_assoc
        add.assoc)
qed

lemma DumpSpline_empty: "DumpSpline [] yv spline dbg = Some (Inl OutOfBounds)"
proof -
  have c: "(ucast (0 :: 32 word) :: 64 word) < 2 * of_nat (length ([] :: datum list)) - 1"
    using bound_empty by simp
  have b: "DumpSpline_body [] yv spline 0 0 = Inl OutOfBounds"
    by (simp add: DumpSpline_body_def vec_at_def)
  have "DumpSpline_loop [] yv spline 0 0 header = Some (Inl OutOfBounds)"
    by (subst DumpSpline_loop.simps) (simp only: c if_True b sum.case)
  then show ?thesis
    by (simp add: DumpSpline_def)
qed

lemma count_rows:
  "length (filter (\<lambda>e. e = (Outstream, Endl)) (concat (map (\<lambda>j. row (a j) (b j) (c j) (d j)) [0..<n]))) = n"
  by (induction n) (simp_all add: row_def)

lemma DumpSpline_loop_wraps:
  assumes "DumpSpline_loop xv0 yv0 spline0 i0 variance0 out0 = Some r0"
  shows "\<not> (length xv0 = 2 ^ 31 \<and> length yv0 = 2 ^ 31 \<and> even (unat i0))"
proof (rule DumpSpline_loop.raw_induct
    [where P = "\<lambda>xv yv spline i variance out r.
                  \<not> (length xv = 2 ^ 31 \<and> length yv = 2 ^ 31 \<and> even (unat i))",
     OF _ assms], goal_cases)
  case (1 loop xv yv spline i variance out r)
  show ?case
  proof
    assume inv: "length xv = 2 ^ 31 \<and> length yv = 2 ^ 31 \<and> even (unat i)"
    have i32: "unat i < 2 ^ 32"
      using unsigned_less [of i, where ?'a = nat] by simp
    have "unat i \<noteq> 2 ^ 32 - 1"
      using inv by auto
    with i32 have "unat i < 2 ^ 32 - 1" by simp
    moreover have "unat (2 * of_nat (length xv) - 1 :: 64 word) = 2 * length xv - 1"
      using inv by (intro unat_bound) simp_all
    ultimately have c: "(ucast i :: 64 word) < 2 * of_nat (length xv) - 1"
      unfolding word_less_nat_alt unat_ucast_counter using inv by simp
    have idx: "unat i div 2 < length xv"
      using i32 inv by simp
    have ev: "even (unat (i + (2 - (if evalmid then 1 else 0))))"
      using inv by (simp add: evalmid_def unat_word_ariths dvd_mod_iff)
    have b: "DumpSpline_body xv yv spline i variance =
       Inr (row (xv ! (unat i div 2)) (yv ! (unat i div 2))
            (evaluate spline (xv ! (unat i div 2))) (slope spline (xv ! (unat i div 2))),
          variance + (evaluate spline (xv ! (unat i div 2)) - yv ! (unat i div 2))
                     * (evaluate spline (xv ! (unat i div 2)) - yv ! (unat i div 2)))"
      using inv idx by (intro DumpSpline_body_even) simp_all
    from "1"(2) have "loop xv yv spline (i + (2 - (if evalmid then 1 else 0)))
        (variance + (evaluate spline (xv ! (unat i div 2)) - yv ! (unat i div 2))
                     * (evaluate spline (xv ! (unat i div 2)) - yv ! (unat i div 2)))
        (out @ row (xv ! (unat i div 2)) (yv ! (unat i div 2))
            (evaluate spline (xv ! (unat i div 2))) (slope spline (xv ! (unat i div 2)))) = Some r"
      by (simp only: c if_True b sum.case prod.case)
    from "1"(1) [OF this] show False
      using inv ev by simp
  qed
qed

text \<open>
  Claim C10, as stated for every non-empty pair of vectors, fails for \<open>2^31\<close> points: the
  bound is then \<open>2^32 - 1\<close>, the counter \<open>i\<close> is an \<^verbatim>\<open>unsigned int\<close> that takes even
  values only and wraps around from \<open>2^32 - 2\<close> to 0, so the condition of the loop is
  never false and \<^verbatim>\<open>DumpSpline\<close> does not return.
\<close>

theorem DumpSpline_wraps_at_2_31:
  "length (replicate (2 ^ 31) (0 :: datum)) = 2 ^ 31
   \<and> replicate (2 ^ 31) (0 :: datum) \<noteq> []
   \<and> DumpSpline (replicate (2 ^ 31) 0) (replicate (2 ^ 31) 0) (example_fit True 10 7) False = None"
proof -
  have "DumpSpline_loop (replicate (2 ^ 31) 0) (replicate (2 ^ 31) 0) (example_fit True 10 7) 0 0 header \<noteq> Some r"
    for r
    using DumpSpline_loop_wraps [of "replicate (2 ^ 31) 0" "replicate (2 ^ 31) 0"
        "example_fit True 10 7" 0 0 header r]
    by auto
  then have "DumpSpline_loop (replicate (2 ^ 31) 0) (replicate (2 ^ 31) 0) (example_fit True 10 7) 0 0 header = None"
    by (cases "DumpSpline_loop (replicate (2 ^ 31) 0) (replicate (2 ^ 31) 0) (example_fit True 10 7) 0 0 header")
      simp_all
  then show ?thesis
    by (simp add: DumpSpline_def)
qed


lemma bound_underflow: "unat (2 * of_nat (length ([] :: datum list)) - 1 :: 64 word) = 2 ^ 64 - 1"
  by (simp add: unsigned_minus_1_eq_mask mask_eq_exp_minus_1)

text \<open>
  Claim C10, as the code has it. For vectors \<open>xv\<close> and \<open>yv\<close> of the same size \<open>n\<close>, with
  \<open>0 < n < 2^31\<close>, \<^verbatim>\<open>DumpSpline\<close> returns, reads no vector outside its range, and writes to
  \<^verbatim>\<open>*out\<close> the header line and then one row for each sample point \<open>k\<close>, in order, with
  the spline and its slope evaluated at \<open>xv[k]\<close> (\<^verbatim>\<open>evalmid\<close> is false: no midpoint is
  evaluated): \<open>n + 1\<close> lines in all. With \<^verbatim>\<open>debug\<close> it writes the variance to
  \<^verbatim>\<open>std::cerr\<close>. The vector must not be empty: for an empty \<open>xv\<close> the bound
  \<^verbatim>\<open>2*xv.size()-1\<close> wraps around to \<open>2^64 - 1\<close>, the body is entered and reads
  \<^verbatim>\<open>xv[0]\<close>, outside the vector.
\<close>

theorem DumpSpline_rows:
  assumes "xv \<noteq> []" "length yv = length xv" "length xv < 2 ^ 31"
  shows "DumpSpline xv yv spline dbg =
      Some (Inr (header
        @ concat (map (\<lambda>k. row (xv ! k) (yv ! k) (evaluate spline (xv ! k)) (slope spline (xv ! k)))
                    [0..<length xv])
        @ (if dbg then
             [(Cerr, Str ''Variance: ''),
              (Cerr, Dbl (sum_list (map (\<lambda>k. (evaluate spline (xv ! k) - yv ! k)
                                              * (evaluate spline (xv ! k) - yv ! k)) [0..<length xv])
                          / real (length xv))),
              (Cerr, Endl)]
           else [])))
    \<and> length (filter (\<lambda>e. e = (Outstream, Endl))
          (header
           @ concat (map (\<lambda>k. row (xv ! k) (yv ! k) (evaluate spline (xv ! k)) (slope spline (xv ! k)))
                       [0..<length xv])))
        = 1 + length xv
    \<and> unat (2 * of_nat (length ([] :: datum list)) - 1 :: 64 word) = 2 ^ 64 - 1
    \<and> DumpSpline [] [] spline dbg = Some (Inl OutOfBounds)"
proof -
  have n: "0 < length xv" using assms(1) by simp
  have "DumpSpline_loop xv yv spline 0 0 header =
     Some (Inr (header @ concat (map (\<lambda>j. row (xv ! j) (yv ! j) (evaluate spline (xv ! j))
                                       (slope spline (xv ! j))) [0..<length xv]),
                0 + sum_list (map (\<lambda>j. (evaluate spline (xv ! j) - yv ! j)
                                              * (evaluate spline (xv ! j) - yv ! j)) [0..<length xv])))"
    using DumpSpline_loop_pass [OF assms(2) assms(3) n, of 0 spline 0 header]
    by (simp only: pass_counter_0 le0)
  then have "DumpSpline xv yv spline dbg =
      Some (Inr (header
        @ concat (map (\<lambda>k. row (xv ! k) (yv ! k) (evaluate spline (xv ! k)) (slope spline (xv ! k)))
                    [0..<length xv])
        @ (if dbg then
             [(Cerr, Str ''Variance: ''),
              (Cerr, Dbl (sum_list (map (\<lambda>k. (evaluate spline (xv ! k) - yv ! k)
                                              * (evaluate spline (xv ! k) - yv ! k)) [0..<length xv])
                          / real (length xv))),
              (Cerr, Endl)]
           else [])))"
    by (simp add: DumpSpline_def)
  moreover have "length (filter (\<lambda>e. e = (Outstream, Endl)) header) = 1"
    by (simp add: header_def)
  ultimately show ?thesis
    using count_rows [of "\<lambda>k. xv ! k" "\<lambda>k. yv ! k" "\<lambda>k. evaluate spline (xv ! k)"
        "\<lambda>k. slope spline (xv ! k)" "length xv"] bound_underflow DumpSpline_empty [of "[]" spline dbg]
    by simp
qed

theorem DumpSpline_rows_witness:
  "DumpSpline [0, 1] [5, 6] (example_fit True 10 7) True =
      Some (Inr (header @ row 0 5 0 7 @ row 1 6 10 7
                 @ [(Cerr, Str ''Variance: ''), (Cerr, Dbl (41 / 2)), (Cerr, Endl)]))
   \<and> length (filter (\<lambda>e. e = (Outstream, Endl)) (header @ row 0 5 0 7 @ row 1 6 10 7)) = 3"
proof -
  have a: "[0, 1 :: datum] \<noteq> []" and b: "length [5, 6 :: datum] = length [0, 1 :: datum]"
    and c: "length [0, 1 :: datum] < 2 ^ 31"
    by simp_all
  have u: "[0..<length [0, 1 :: datum]] = [0, 1]"
    by (simp add: upt_rec)
  from DumpSpline_rows [OF a b c, of "example_fit True 10 7" True]
  show ?thesis
    unfolding u by (simp add: example_fit_def)
qed

section \<open>The spline in main\<close>

lemma fit_and_dump_failed:
  "\<not> ok (construct ev p x y) \<Longrightarrow>
     fit_and_dump ev p x y = Some (Inr (0, [(Cerr, Str ''Spline setup failed.''), (Cerr, Endl)]))"
  by (simp add: fit_and_dump_def)

lemma debug_message_sinks: "\<forall>(snk, it) \<in> set (debug_message p). snk = Cout"
  by (auto simp: debug_message_def)

text \<open>
  Claim C3. \<open>ok\<close> holds if and only if both the Basis Engine is valid and the solve of
  the fit succeeded (the fit is modelled from the specification). The harness gates all
  use of the fit on it: \<^verbatim>\<open>DumpSpline\<close>, the only place where \<^verbatim>\<open>evaluate\<close> and \<^verbatim>\<open>slope\<close>
  are called, runs only when \<^verbatim>\<open>spline.ok()\<close> holds. When it does not hold, \<^verbatim>\<open>main\<close>
  writes "Spline setup failed." to \<^verbatim>\<open>std::cerr\<close> and returns 0; nothing is written to
  \<^verbatim>\<open>*outstream\<close>, and the result is the same whatever \<^verbatim>\<open>evaluate\<close> and \<^verbatim>\<open>slope\<close> of the
  failed fit would return.
\<close>

theorem failed_fit_is_gated:
  "ok f = (isValid (engine f) \<and> solve_succeeded f)
   \<and> (ok (construct ev p x y) \<longrightarrow>
        fit_and_dump ev p x y =
          (case DumpSpline x y (construct ev p x y) (debug p) of
             None \<Rightarrow> None
           | Some (Inl e) \<Rightarrow> Some (Inl e)
           | Some (Inr out) \<Rightarrow> Some (Inr (0, out))))
   \<and> (\<not> ok (construct ev p x y) \<longrightarrow>
        fit_and_dump ev p x y = Some (Inr (0, [(Cerr, Str ''Spline setup failed.''), (Cerr, Endl)]))
        \<and> fit_and_dump
            (ev\<lparr>BSpline := \<lambda>dbg xs nx ys wl b n. (BSpline ev dbg xs nx ys wl b n)\<lparr>evaluate := e', slope := s'\<rparr>\<rparr>)
            p x y
           = fit_and_dump ev p x y)
   \<and> (parseCommandLine ev opts = Inr p \<and> open_streams ev p = Inr vs
        \<and> read_and_subsample p vs = Some (x, y) \<and> \<not> ok (construct ev p x y) \<longrightarrow>
        main ev opts =
          Some (Inr (0, debug_message p @ [(Cerr, Str ''Spline setup failed.''), (Cerr, Endl)]))
        \<and> (\<forall>(snk, it) \<in> set (debug_message p @ [(Cerr, Str ''Spline setup failed.''), (Cerr, Endl)]).
              snk \<noteq> Outstream))"
proof -
  have a: "ok f = (isValid (engine f) \<and> solve_succeeded f)"
    by (simp add: ok_def)
  have b: "fit_and_dump ev p x y =
          (case DumpSpline x y (construct ev p x y) (debug p) of
             None \<Rightarrow> None
           | Some (Inl e) \<Rightarrow> Some (Inl e)
           | Some (Inr out) \<Rightarrow> Some (Inr (0, out)))"
    if "ok (construct ev p x y)"
    using that by (simp add: fit_and_dump_def)
  have c: "fit_and_dump
            (ev\<lparr>BSpline := \<lambda>dbg xs nx ys wl b n. (BSpline ev dbg xs nx ys wl b n)\<lparr>evaluate := e', slope := s'\<rparr>\<rparr>)
            p x y
           = fit_and_dump ev p x y"
    if "\<not> ok (construct ev p x y)"
  proof -
    let ?ev = "ev\<lparr>BSpline := \<lambda>dbg xs nx ys wl b n. (BSpline ev dbg xs nx ys wl b n)\<lparr>evaluate := e', slope := s'\<rparr>\<rparr>"
    have "construct ?ev p x y = (construct ev p x y)\<lparr>evaluate := e', slope := s'\<rparr>"
      by (simp add: construct_def)
    then have "ok (construct ?ev p x y) = ok (construct ev p x y)"
      by (simp add: ok_def)
    with that have n: "\<not> ok (construct ?ev p x y)"
      by simp
    show ?thesis
      by (simp only: fit_and_dump_failed [OF that] fit_and_dump_failed [OF n])
  qed
  have d: "main ev opts =
          Some (Inr (0, debug_message p @ [(Cerr, Str ''Spline setup failed.''), (Cerr, Endl)]))"
    if "parseCommandLine ev opts = Inr p" "open_streams ev p = Inr vs"
      "read_and_subsample p vs = Some (x, y)" "\<not> ok (construct ev p x y)"
    using that by (simp add: main_def fit_and_dump_failed)
  have e: "\<forall>(snk, it) \<in> set (debug_message p @ [(Cerr, Str ''Spline setup failed.''), (Cerr, Endl)]).
              snk \<noteq> Outstream"
    using debug_message_sinks [of p] by auto
  show ?thesis
    using a b c d e fit_and_dump_failed [of ev p x y] by blast
qed


lemma DumpSpline_output:
  assumes "xv \<noteq> []" "length yv = length xv" "length xv < 2 ^ 31"
  shows "DumpSpline xv yv spline False =
      Some (Inr (header
        @ concat (map (\<lambda>k. row (xv ! k) (yv ! k) (evaluate spline (xv ! k)) (slope spline (xv ! k)))
                    [0..<length xv])))"
proof -
  have n: "0 < length xv" using assms(1) by simp
  have "DumpSpline_loop xv yv spline 0 0 header =
     Some (Inr (header @ concat (map (\<lambda>j. row (xv ! j) (yv ! j) (evaluate spline (xv ! j))
                                       (slope spline (xv ! j))) [0..<length xv]),
                0 + sum_list (map (\<lambda>j. (evaluate spline (xv ! j) - yv ! j)
                                              * (evaluate spline (xv ! j) - yv ! j)) [0..<length xv])))"
    using DumpSpline_loop_pass [OF assms(2) assms(3) n, of 0 spline 0 header]
    by (simp only: pass_counter_0 le0)
  then show ?thesis
    by (simp add: DumpSpline_def)
qed

lemma example_open:
  "infile p = [] \<Longrightarrow> outfile p = [] \<Longrightarrow> open_streams (example_env b vs) p = Inr vs"
  by (simp add: open_streams_def example_env_def)

lemma example_read:
  "step p = 0 \<Longrightarrow> read_and_subsample p [1, 2, 3, 4] = Some ([0, 2], [2, 4])"
  by (simp add: read_and_subsample_def subsample_def)

lemma example_construct:
  "construct (example_env b vs) p x y = example_fit b (wavelength p) (num_nodes p)"
  by (simp add: construct_def example_env_def)

lemma example_debug: "\<not> debug p \<Longrightarrow> debug_message p = []"
  by (simp add: debug_message_def)

lemma example_ok: "ok (example_fit b 10 n) = b"
  by (simp add: ok_def isValid_def example_fit_def BSplineBase_def)


lemma example_dump:
  "DumpSpline [0, 2] [2, 4] (example_fit True 10 n) False
     = Some (Inr (header @ row 0 2 0 (of_int n) @ row 2 4 20 (of_int n)))"
proof -
  have u: "[0..<length [0, 2 :: datum]] = [0, 1]"
    by (simp add: upt_rec)
  have "DumpSpline [0, 2] [2, 4] (example_fit True 10 n) False =
      Some (Inr (header
        @ concat (map (\<lambda>k. row ([0, 2] ! k) ([2, 4] ! k) (evaluate (example_fit True 10 n) ([0, 2] ! k))
                              (slope (example_fit True 10 n) ([0, 2] ! k)))
                    [0..<length [0, 2 :: datum]])))"
    by (rule DumpSpline_output) simp_all
  then show ?thesis
    unfolding u by (simp add: example_fit_def)
qed

theorem failed_fit_is_gated_witness:
  "ok (example_fit True 10 0) \<and> \<not> ok (example_fit False 10 0)
   \<and> main (example_env False [1, 2, 3, 4]) [(CHR ''w'', Some ''10'')]
       = Some (Inr (0, [(Cerr, Str ''Spline setup failed.''), (Cerr, Endl)]))
   \<and> fit_and_dump (example_env True [1, 2, 3, 4]) (init_params\<lparr>wavelength := 10\<rparr>) [0, 2] [2, 4]
       = Some (Inr (0, header @ row 0 2 0 0 @ row 2 4 20 0))"
proof -
  define p where "p = init_params\<lparr>wavelength := 10\<rparr>"
  have f: "infile p = []" "outfile p = []" "step p = 0" "\<not> debug p" "wavelength p = 10"
    "num_nodes p = 0"
    by (simp_all add: p_def init_params_def)
  have c: "construct (example_env b [1, 2, 3, 4]) p [0, 2] [2, 4] = example_fit b 10 0" for b
    by (simp only: example_construct f)
  have h: "parseCommandLine (example_env False [1, 2, 3, 4]) [(CHR ''w'', Some ''10'')] = Inr p
      \<and> open_streams (example_env False [1, 2, 3, 4]) p = Inr [1, 2, 3, 4]
      \<and> read_and_subsample p [1, 2, 3, 4] = Some ([0, 2], [2, 4])
      \<and> \<not> ok (construct (example_env False [1, 2, 3, 4]) p [0, 2] [2, 4])"
  proof (intro conjI)
    show "parseCommandLine (example_env False [1, 2, 3, 4]) [(CHR ''w'', Some ''10'')] = Inr p"
      unfolding p_def by (rule example_parse_10)
    show "open_streams (example_env False [1, 2, 3, 4]) p = Inr [1, 2, 3, 4]"
      using f(1,2) by (rule example_open)
    show "read_and_subsample p [1, 2, 3, 4] = Some ([0, 2], [2, 4])"
      using f(3) by (rule example_read)
    show "\<not> ok (construct (example_env False [1, 2, 3, 4]) p [0, 2] [2, 4])"
      by (simp add: c example_ok)
  qed
  have d: "debug_message p = []"
    using f(4) by (rule example_debug)
  have t: "ok (construct (example_env True [1, 2, 3, 4]) p [0, 2] [2, 4])"
    by (simp add: c example_ok)
  from failed_fit_is_gated [where ev = "example_env False [1, 2, 3, 4]" and p = p
      and opts = "[(CHR ''w'', Some ''10'')]" and vs = "[1, 2, 3, 4]" and x = "[0, 2]" and y = "[2, 4]"] h
  have "main (example_env False [1, 2, 3, 4]) [(CHR ''w'', Some ''10'')]
       = Some (Inr (0, debug_message p @ [(Cerr, Str ''Spline setup failed.''), (Cerr, Endl)]))"
    by blast
  then have m: "main (example_env False [1, 2, 3, 4]) [(CHR ''w'', Some ''10'')]
       = Some (Inr (0, [(Cerr, Str ''Spline setup failed.''), (Cerr, Endl)]))"
    by (simp add: d)
  from failed_fit_is_gated [where ev = "example_env True [1, 2, 3, 4]" and p = p
      and x = "[0, 2]" and y = "[2, 4]"] t
  have "fit_and_dump (example_env True [1, 2, 3, 4]) p [0, 2] [2, 4] =
          (case DumpSpline [0, 2] [2, 4] (construct (example_env True [1, 2, 3, 4]) p [0, 2] [2, 4]) (debug p) of
             None \<Rightarrow> None
           | Some (Inl e) \<Rightarrow> Some (Inl e)
           | Some (Inr out) \<Rightarrow> Some (Inr (0, out)))"
    by blast
  then have "fit_and_dump (example_env True [1, 2, 3, 4]) p [0, 2] [2, 4]
       = Some (Inr (0, header @ row 0 2 0 0 @ row 2 4 20 0))"
    using example_dump [of 0] by (simp add: c f)
  then show ?thesis
    using m unfolding p_def by (simp add: example_ok)
qed







end
